theory Spec2Isabelle
  imports Main "HOL-Library.AList" "HOL-Library.Word"
begin

section \<open>JavaScript values\<close>

text \<open>
  The component's scalar properties hold \<^verbatim>\<open>undefined\<close>, \<^verbatim>\<open>null\<close>, a boolean or a
  string. Strict equality \<^verbatim>\<open>===\<close> on these values is equality of the datatype.
\<close>

datatype jsval = Undefined | Null | Bool bool | Str string

text \<open>Truthiness, as \<^verbatim>\<open>if (v)\<close>, \<^verbatim>\<open>!v\<close> and \<^verbatim>\<open>a || b\<close> read a value.\<close>

fun truthy :: "jsval \<Rightarrow> bool" where
  "truthy Undefined = False"
| "truthy Null = False"
| "truthy (Bool b) = b"
| "truthy (Str s) = (s \<noteq> [])"

definition js_or :: "jsval \<Rightarrow> jsval \<Rightarrow> jsval" where
  "js_or a b = (if truthy a then a else b)"

text \<open>The string a template literal \<^verbatim>\<open>`${v}`\<close> puts in place of a value.\<close>

fun toString :: "jsval \<Rightarrow> string" where
  "toString Undefined = ''undefined''"
| "toString Null = ''null''"
| "toString (Bool b) = (if b then ''true'' else ''false'')"
| "toString (Str s) = s"

text \<open>
  \<^verbatim>\<open>String.prototype.toLowerCase\<close> on ASCII text: the letters A to Z are mapped to
  a to z, every other character is kept. Backend type names are ASCII.
\<close>

definition lower_char :: "char \<Rightarrow> char" where
  "lower_char c =
     (if 65 \<le> (of_char c :: nat) \<and> (of_char c :: nat) \<le> 90
      then char_of ((of_char c :: nat) + 32) else c)"

definition toLowerCase :: "string \<Rightarrow> string" where
  "toLowerCase s = map lower_char s"

text \<open>
  What the code can throw: a \<^verbatim>\<open>TypeError\<close> (reading a property of \<^verbatim>\<open>null\<close> or
  \<^verbatim>\<open>undefined\<close>), the \<^verbatim>\<open>InvalidCharacterError\<close> of \<^verbatim>\<open>atob\<close>, a rejection of a
  network call that carries the server's \<^verbatim>\<open>errors\<close> array, and a rejection that has
  no \<^verbatim>\<open>errors\<close> property.
\<close>

datatype js_error =
    TypeError
  | InvalidCharacterError
  | ServerError "string list"
  | OtherError string

text \<open>
  \<^verbatim>\<open>e.errors[0]\<close>: \<open>None\<close> when \<^verbatim>\<open>e.errors\<close> is undefined (indexing it throws a
  TypeError), \<^verbatim>\<open>undefined\<close> when the array is empty.
\<close>

fun errors0 :: "js_error \<Rightarrow> jsval option" where
  "errors0 (ServerError []) = Some Undefined"
| "errors0 (ServerError (m # ms)) = Some (Str m)"
| "errors0 e = None"

section \<open>The data model\<close>

text \<open>
  A backend descriptor: an entry of the static catalog \<^verbatim>\<open>BACKENDS\<close> or a mount reported
  by the server. Catalog entries have \<^verbatim>\<open>formAttributes\<close>; mounts have \<^verbatim>\<open>path\<close> and
  \<^verbatim>\<open>id\<close>. A field the object does not have reads as \<^verbatim>\<open>undefined\<close>.
\<close>

record backend =
  type :: string
  path :: jsval
  id' :: jsval
  formAttributes :: "string list option"

type_synonym data = "(string \<times> jsval) list"

text \<open>The calls the component makes to its collaborators, in the order it makes them.\<close>

datatype event =
    FindAllAuthMethods
  | ToolActionUnwrap jsval
  | AuthAuthenticate jsval jsval data jsval
  | OnSuccess jsval jsval data
  | Fetch string string "data option"
  | CredentialsGet "8 word list" "8 word list list"
  | ConsoleError js_error

text \<open>
  The component. \<open>cluster\<close> is \<^verbatim>\<open>null\<close> (\<open>None\<close>) or an object whose \<^verbatim>\<open>id\<close> is the
  value given. \<open>methods\<close> is \<^verbatim>\<open>null\<close> or an array. \<open>oldWrappedToken\<close>,
  \<open>oldSelectedAuth\<close>, \<open>error\<close> and \<open>isLoading\<close> are not declared by the component and
  start \<^verbatim>\<open>undefined\<close>. \<open>props\<close> holds the properties set on the component from outside
  this file (the inputs of the form), read by \<^verbatim>\<open>getProperties\<close>.
\<close>

record component =
  selectedAuth :: jsval
  methods :: "backend list option"
  cluster :: "jsval option"
  namespace :: jsval
  wrappedToken :: jsval
  oldNamespace :: jsval
  oldWrappedToken :: jsval
  oldSelectedAuth :: jsval
  token :: jsval
  username :: jsval
  password :: jsval
  customPath :: jsval
  error :: jsval
  isLoading :: jsval
  props :: data
  events :: "event list"

definition init :: component where
  "init = \<lparr> selectedAuth = Null, methods = None, cluster = None, namespace = Null,
            wrappedToken = Null, oldNamespace = Null, oldWrappedToken = Undefined,
            oldSelectedAuth = Undefined, token = Null, username = Null, password = Null,
            customPath = Null, error = Undefined, isLoading = Undefined, props = [],
            events = [] \<rparr>"

definition emit :: "event \<Rightarrow> component \<Rightarrow> component" where
  "emit ev s = s\<lparr>events := events s @ [ev]\<rparr>"

section \<open>Attribute changes\<close>

text \<open>\<^verbatim>\<open>resetDefaults\<close>: \<^verbatim>\<open>setProperties(DEFAULTS)\<close>, the four keys of \<^verbatim>\<open>DEFAULTS\<close>.\<close>

definition resetDefaults :: "component \<Rightarrow> component" where
  "resetDefaults s = s\<lparr>token := Null, username := Null, password := Null, customPath := Null\<rparr>"

text \<open>
  The two tasks \<^verbatim>\<open>didReceiveAttrs\<close> performs run at once up to their first
  \<^verbatim>\<open>yield\<close>, which is the network call; what follows the call runs when it settles.
\<close>

definition fetchMethods_start :: "component \<Rightarrow> component" where
  "fetchMethods_start s = emit FindAllAuthMethods s"

definition unwrapToken_start :: "jsval \<Rightarrow> component \<Rightarrow> component" where
  "unwrapToken_start tok s = emit (ToolActionUnwrap tok) (s\<lparr>selectedAuth := Str ''token''\<rparr>)"

text \<open>
  \<^verbatim>\<open>didReceiveAttrs\<close> reads six properties at once and schedules the rest with
  \<^verbatim>\<open>next\<close>; the callback works on the values read.
\<close>

record attrs =
  a_token :: jsval
  a_oldToken :: jsval
  a_oldNS :: jsval
  a_ns :: jsval
  a_newMethod :: jsval
  a_oldMethod :: jsval

definition read_attrs :: "component \<Rightarrow> attrs" where
  "read_attrs s = \<lparr> a_token = wrappedToken s, a_oldToken = oldWrappedToken s,
                    a_oldNS = oldNamespace s, a_ns = namespace s,
                    a_newMethod = selectedAuth s, a_oldMethod = oldSelectedAuth s \<rparr>"

definition didReceiveAttrs_next :: "attrs \<Rightarrow> component \<Rightarrow> component" where
  "didReceiveAttrs_next a s =
     (let s1 = (if \<not> truthy (a_token a) \<and> (a_oldNS a = Null \<or> a_oldNS a \<noteq> a_ns a)
                then fetchMethods_start s else s);
          s2 = s1\<lparr>oldNamespace := a_ns a\<rparr>;
          s3 = (if truthy (a_token a) \<and> \<not> truthy (a_oldToken a)
                then (unwrapToken_start (a_token a) s2)\<lparr>oldWrappedToken := a_token a\<rparr>
                else s2);
          s4 = (if truthy (a_oldMethod a) \<and> a_oldMethod a \<noteq> a_newMethod a
                then resetDefaults s3 else s3)
      in s4\<lparr>oldSelectedAuth := a_newMethod a\<rparr>)"

text \<open>One attribute-change pass: the read and its callback, with nothing in between.\<close>

definition didReceiveAttrs :: "component \<Rightarrow> component" where
  "didReceiveAttrs s = didReceiveAttrs_next (read_attrs s) s"

text \<open>
  The parent delivers new attribute values, then the pass runs: \<open>deliver\<close> is the
  pass whose callback runs before anything else happens.
\<close>

record delivered =
  d_wrappedToken :: jsval
  d_namespace :: jsval
  d_selectedAuth :: jsval

definition deliver :: "delivered \<Rightarrow> component \<Rightarrow> component" where
  "deliver d s = didReceiveAttrs
     (s\<lparr>wrappedToken := d_wrappedToken d, namespace := d_namespace d,
        selectedAuth := d_selectedAuth d\<rparr>)"

text \<open>
  The run loop. \<^verbatim>\<open>didReceiveAttrs\<close> itself only reads the six properties and hands its
  callback to \<^verbatim>\<open>next\<close>; the callback runs in a later turn, so further passes can read
  before it runs. \<open>scheduled\<close> holds the values read by the passes whose callback has
  not run yet, oldest first. A step is a pass delivered by the parent (the attributes
  are set, read, and the callback is scheduled) or the run of the oldest scheduled
  callback.
\<close>

record runloop =
  this :: component
  scheduled :: "attrs list"

datatype step = Receive delivered | RunNext

definition receive :: "delivered \<Rightarrow> runloop \<Rightarrow> runloop" where
  "receive d st =
     (let s = (this st)\<lparr>wrappedToken := d_wrappedToken d, namespace := d_namespace d,
                          selectedAuth := d_selectedAuth d\<rparr>
      in \<lparr>this = s, scheduled = scheduled st @ [read_attrs s]\<rparr>)"

definition run_next :: "runloop \<Rightarrow> runloop" where
  "run_next st =
     (case scheduled st of
        [] \<Rightarrow> st
      | a # q \<Rightarrow> \<lparr>this = didReceiveAttrs_next a (this st), scheduled = q\<rparr>)"

fun run :: "step list \<Rightarrow> runloop \<Rightarrow> runloop" where
  "run [] st = st"
| "run (Receive d # xs) st = run xs (receive d st)"
| "run (RunNext # xs) st = run xs (run_next st)"



fun fetches :: "event list \<Rightarrow> nat" where
  "fetches [] = 0"
| "fetches (FindAllAuthMethods # es) = Suc (fetches es)"
| "fetches (e # es) = fetches es"

section \<open>Backend lookup\<close>

text \<open>
  What \<^verbatim>\<open>getAuthBackend\<close> returns: \<^verbatim>\<open>undefined\<close> (nothing found), the empty object
  \<^verbatim>\<open>{}\<close>, or a descriptor.
\<close>

datatype lookup = NotFound | EmptyObject | Found backend

text \<open>\<^verbatim>\<open>selectedAuthIsPath\<close>: \<^verbatim>\<open>match('selectedAuth', /\/$/)\<close>, false on a non-string.\<close>

fun selectedAuthIsPath_of :: "jsval \<Rightarrow> bool" where
  "selectedAuthIsPath_of (Str s) = (s \<noteq> [] \<and> last s = CHR ''/'')"
| "selectedAuthIsPath_of v = False"

definition selectedAuthIsPath :: "component \<Rightarrow> bool" where
  "selectedAuthIsPath s = selectedAuthIsPath_of (selectedAuth s)"

text \<open>\<^verbatim>\<open>findBy(key, value)\<close>: the first element whose property is strictly equal.\<close>

definition findBy_path :: "backend list \<Rightarrow> jsval \<Rightarrow> lookup" where
  "findBy_path ms v = (case find (\<lambda>m. path m = v) ms of None \<Rightarrow> NotFound | Some m \<Rightarrow> Found m)"

definition findBy_type :: "backend list \<Rightarrow> jsval \<Rightarrow> lookup" where
  "findBy_type bs v = (case find (\<lambda>b. Str (type b) = v) bs of None \<Rightarrow> NotFound | Some b \<Rightarrow> Found b)"

text \<open>
  \<^verbatim>\<open>getAuthBackend(type)\<close>. The catalog \<^verbatim>\<open>BACKENDS\<close> is the result of
  \<^verbatim>\<open>supportedAuthBackends()\<close>, a helper that is not part of these sources: it is a
  parameter. \<^verbatim>\<open>methods.findBy\<close> on \<^verbatim>\<open>null\<close> is a TypeError.
\<close>

definition getAuthBackend :: "backend list \<Rightarrow> jsval \<Rightarrow> component \<Rightarrow> js_error + lookup" where
  "getAuthBackend BACKENDS ty s =
     (let selected = js_or ty (selectedAuth s) in
      if methods s = None \<and> \<not> truthy (wrappedToken s) then Inr EmptyObject
      else if selectedAuthIsPath s \<and> \<not> truthy ty then
        (case methods s of None \<Rightarrow> Inl TypeError | Some ms \<Rightarrow> Inr (findBy_path ms selected))
      else Inr (findBy_type BACKENDS selected))"

definition selectedAuthBackend :: "backend list \<Rightarrow> component \<Rightarrow> js_error + lookup" where
  "selectedAuthBackend BACKENDS s = getAuthBackend BACKENDS Undefined s"

text \<open>\<^verbatim>\<open>backend.type\<close> and \<^verbatim>\<open>backend.id\<close> of a lookup result that is an object.\<close>

fun lookup_type :: "lookup \<Rightarrow> jsval" where
  "lookup_type (Found b) = Str (type b)"
| "lookup_type l = Undefined"

fun lookup_id :: "lookup \<Rightarrow> jsval" where
  "lookup_id (Found b) = id' b"
| "lookup_id l = Undefined"

text \<open>
  \<^verbatim>\<open>dasherize\<close> of a string already in lower case: spaces and underscores become
  dashes.
\<close>

definition dasherize :: "string \<Rightarrow> string" where
  "dasherize s = map (\<lambda>c. if c = CHR '' '' \<or> c = CHR ''_'' then CHR ''-'' else c) s"

definition providerName :: "backend list \<Rightarrow> component \<Rightarrow> js_error + jsval" where
  "providerName BACKENDS s =
     (case selectedAuthBackend BACKENDS s of
        Inl e \<Rightarrow> Inl e
      | Inr NotFound \<Rightarrow> Inr Undefined
      | Inr l \<Rightarrow> Inr (Str (dasherize (toLowerCase (toString (js_or (lookup_type l) (Str ''token'')))))))"

text \<open>
  \<^verbatim>\<open>methodsToShow\<close>: the mounts whose type some catalog entry has, compared in lower
  case; the catalog when there is none.
\<close>

definition methodsToShow :: "backend list \<Rightarrow> component \<Rightarrow> backend list" where
  "methodsToShow BACKENDS s =
     (let ms = (case methods s of None \<Rightarrow> [] | Some ms \<Rightarrow> ms);
          shownMethods =
            filter (\<lambda>m. find (\<lambda>b. toLowerCase (type b) = toLowerCase (type m)) BACKENDS \<noteq> None) ms
      in if length shownMethods \<noteq> 0 then shownMethods else BACKENDS)"

section \<open>Authenticate\<close>

text \<open>
  What the collaborators of one \<^verbatim>\<open>authenticate\<close> run do: what the promise of
  \<^verbatim>\<open>auth.authenticate\<close> settles to, whether the \<^verbatim>\<open>onSuccess\<close> callback throws, the
  value of \<^verbatim>\<open>auth.mfaError\<close> when the \<^verbatim>\<open>catch\<close> block reads it, and the service's
  \<^verbatim>\<open>handleError\<close>.
\<close>

record auth_run =
  authResponse :: "js_error + jsval"
  onSuccessThrows :: "js_error option"
  mfaError :: jsval
  handleError :: "js_error \<Rightarrow> jsval"

text \<open>
  Up to the \<^verbatim>\<open>yield\<close>: reading \<^verbatim>\<open>cluster.id\<close> of a \<^verbatim>\<open>null\<close> cluster is a TypeError,
  outside the \<^verbatim>\<open>try\<close>; the task is rejected and nothing is called. The reminder task
  \<^verbatim>\<open>delayAuthMessageReminder\<close> only waits; it touches none of the fields modelled.
\<close>

definition authenticate_start :: "jsval \<Rightarrow> data \<Rightarrow> component \<Rightarrow> js_error option \<times> component" where
  "authenticate_start backendType dat s =
     (case cluster s of
        None \<Rightarrow> (Some TypeError, s)
      | Some clusterId \<Rightarrow>
          (None, emit (AuthAuthenticate clusterId backendType dat (selectedAuth s)) s))"

definition authenticate_catch :: "auth_run \<Rightarrow> js_error \<Rightarrow> component \<Rightarrow> component" where
  "authenticate_catch r e s =
     (let s1 = s\<lparr>isLoading := Bool False\<rparr> in
      if \<not> truthy (mfaError r)
      then s1\<lparr>error := Str (''Authentication failed: '' @ toString (handleError r e))\<rparr>
      else s1)"

definition authenticate_settle :: "auth_run \<Rightarrow> jsval \<Rightarrow> data \<Rightarrow> component \<Rightarrow> component" where
  "authenticate_settle r backendType dat s =
     (case authResponse r of
        Inl e \<Rightarrow> authenticate_catch r e s
      | Inr resp \<Rightarrow>
          (let s1 = emit (OnSuccess resp backendType dat) s in
           case onSuccessThrows r of None \<Rightarrow> s1 | Some e \<Rightarrow> authenticate_catch r e s1))"

definition authenticate :: "auth_run \<Rightarrow> jsval \<Rightarrow> data \<Rightarrow> component \<Rightarrow> js_error option \<times> component" where
  "authenticate r backendType dat s =
     (case authenticate_start backendType dat s of
        (Some e, s1) \<Rightarrow> (Some e, s1)
      | (None, s1) \<Rightarrow> (None, authenticate_settle r backendType dat s1))"

section \<open>Submit\<close>

text \<open>\<^verbatim>\<open>this.get(name)\<close> for the scalar properties; any other name is read from \<open>props\<close>.\<close>

definition get_prop :: "component \<Rightarrow> string \<Rightarrow> jsval" where
  "get_prop s name =
     (if name = ''token'' then token s
      else if name = ''username'' then username s
      else if name = ''password'' then password s
      else if name = ''customPath'' then customPath s
      else if name = ''selectedAuth'' then selectedAuth s
      else if name = ''namespace'' then namespace s
      else if name = ''wrappedToken'' then wrappedToken s
      else if name = ''oldNamespace'' then oldNamespace s
      else if name = ''oldWrappedToken'' then oldWrappedToken s
      else if name = ''oldSelectedAuth'' then oldSelectedAuth s
      else if name = ''error'' then error s
      else if name = ''isLoading'' then isLoading s
      else (case map_of (props s) name of None \<Rightarrow> Undefined | Some v \<Rightarrow> v))"

text \<open>
  An object with string keys: setting a key keeps its place or appends it.
  \<^verbatim>\<open>assign(target, source)\<close> sets every key of the source, in order.
\<close>

definition assign :: "data \<Rightarrow> data \<Rightarrow> data" where
  "assign target source = fold (\<lambda>(k, v). AList.update k v) source target"

definition getProperties :: "component \<Rightarrow> string list \<Rightarrow> data" where
  "getProperties s names = fold (\<lambda>k. AList.update k (get_prop s k)) names []"

text \<open>
  The arguments of the \<^verbatim>\<open>doSubmit\<close> action: none, the event alone, or the passed data
  and the event. \<open>None\<close> is a missing or \<^verbatim>\<open>undefined\<close> argument. \<^verbatim>\<open>e.preventDefault()\<close>
  changes nothing of the component.
\<close>

datatype dom_event = DomEvent

datatype submit_args =
    NoArgs
  | OneArg "dom_event option"
  | TwoArgs "data option" "dom_event option"

fun passedData_of :: "submit_args \<Rightarrow> data option" where
  "passedData_of (TwoArgs d e) = d"
| "passedData_of a = None"

text \<open>
  The backend of \<^verbatim>\<open>doSubmit\<close>: by type \<^verbatim>\<open>token\<close> on the way back from OIDC, else the
  selected backend, \<^verbatim>\<open>{}\<close> when there is none.
\<close>

definition resolve_backend :: "backend list \<Rightarrow> component \<Rightarrow> js_error + lookup" where
  "resolve_backend BACKENDS s =
     (case providerName BACKENDS s of
        Inl e \<Rightarrow> Inl e
      | Inr p \<Rightarrow>
          if p = Str ''oidc'' then getAuthBackend BACKENDS (Str ''token'') s
          else (case selectedAuthBackend BACKENDS s of
                  Inl e \<Rightarrow> Inl e
                | Inr NotFound \<Rightarrow> Inr EmptyObject
                | Inr l \<Rightarrow> Inr l))"

text \<open>\<^verbatim>\<open>(x.type || '').toLowerCase()\<close>.\<close>

definition type_key :: "jsval \<Rightarrow> string" where
  "type_key v = toLowerCase (toString (js_or v (Str [])))"

definition gather :: "backend list \<Rightarrow> lookup \<Rightarrow> data option \<Rightarrow> component \<Rightarrow> data" where
  "gather BACKENDS backend passedData s =
     (let backendMeta = find (\<lambda>b. type_key (Str (type b)) = type_key (lookup_type backend)) BACKENDS;
          attributes = (case backendMeta of None \<Rightarrow> []
                        | Some b \<Rightarrow> (case formAttributes b of None \<Rightarrow> [] | Some as \<Rightarrow> as));
          d1 = assign [] (getProperties s attributes);
          d2 = (case passedData of None \<Rightarrow> d1 | Some pd \<Rightarrow> assign d1 pd)
      in if truthy (js_or (customPath s) (lookup_id backend))
         then AList.update ''path'' (js_or (customPath s) (lookup_id backend)) d2
         else d2)"

text \<open>
  \<^verbatim>\<open>doSubmit\<close> up to \<^verbatim>\<open>perform\<close>: the error is cleared, the backend resolved, the data
  gathered. The result is what is thrown, or the backend type and the data handed to
  \<^verbatim>\<open>authenticate\<close>, with the component as it is then. On the way back from OIDC the
  lookup by type can find nothing, and reading \<^verbatim>\<open>backend.type\<close> of \<^verbatim>\<open>undefined\<close> is a
  TypeError.
\<close>

definition doSubmit_prepare ::
  "backend list \<Rightarrow> submit_args \<Rightarrow> component \<Rightarrow> (js_error + jsval \<times> data) \<times> component" where
  "doSubmit_prepare BACKENDS args s =
     (let s1 = s\<lparr>error := Null\<rparr> in
      case resolve_backend BACKENDS s1 of
        Inl e \<Rightarrow> (Inl e, s1)
      | Inr NotFound \<Rightarrow> (Inl TypeError, s1)
      | Inr backend \<Rightarrow>
          (Inr (lookup_type backend, gather BACKENDS backend (passedData_of args) s1), s1))"

text \<open>
  \<^verbatim>\<open>doSubmit\<close> up to the \<^verbatim>\<open>yield\<close> of the task it performs, and \<^verbatim>\<open>doSubmit\<close> with the
  task run to its end. An error inside the task rejects the task; \<^verbatim>\<open>perform\<close> does
  not throw it to the action.
\<close>

definition doSubmit_sync ::
  "backend list \<Rightarrow> submit_args \<Rightarrow> component \<Rightarrow> js_error option \<times> component" where
  "doSubmit_sync BACKENDS args s =
     (case doSubmit_prepare BACKENDS args s of
        (Inl e, s1) \<Rightarrow> (Some e, s1)
      | (Inr (backendType, dat), s1) \<Rightarrow> (None, snd (authenticate_start backendType dat s1)))"

definition doSubmit ::
  "backend list \<Rightarrow> auth_run \<Rightarrow> submit_args \<Rightarrow> component \<Rightarrow> js_error option \<times> component" where
  "doSubmit BACKENDS r args s =
     (case doSubmit_prepare BACKENDS args s of
        (Inl e, s1) \<Rightarrow> (Some e, s1)
      | (Inr (backendType, dat), s1) \<Rightarrow> (None, snd (authenticate r backendType dat s1)))"

text \<open>The \<^verbatim>\<open>handleError\<close> action.\<close>

definition handleError_action ::
  "(js_error \<Rightarrow> jsval) \<Rightarrow> js_error option \<Rightarrow> component \<Rightarrow> component" where
  "handleError_action h e s =
     s\<lparr>isLoading := Bool False, error := (case e of None \<Rightarrow> Null | Some x \<Rightarrow> h x)\<rparr>"

section \<open>Token unwrap and method discovery\<close>

text \<open>
  The \<^verbatim>\<open>catch\<close> block of \<^verbatim>\<open>unwrapToken\<close>: an error without an \<^verbatim>\<open>errors\<close> array makes
  the block itself throw.
\<close>

definition unwrapToken_catch :: "js_error \<Rightarrow> component \<Rightarrow> js_error option \<times> component" where
  "unwrapToken_catch e s =
     (case errors0 e of
        None \<Rightarrow> (Some TypeError, s)
      | Some m \<Rightarrow> (None, s\<lparr>error := Str (''Token unwrap failed: '' @ toString m)\<rparr>))"

text \<open>
  After the exchange call has settled, to an error or to the \<^verbatim>\<open>client_token\<close> of the
  response. What \<^verbatim>\<open>doSubmit\<close> throws is caught by the same \<^verbatim>\<open>catch\<close>.
\<close>

definition unwrapToken_settle ::
  "backend list \<Rightarrow> auth_run \<Rightarrow> js_error + jsval \<Rightarrow> component \<Rightarrow> js_error option \<times> component" where
  "unwrapToken_settle BACKENDS r response s =
     (case response of
        Inl e \<Rightarrow> unwrapToken_catch e s
      | Inr client_token \<Rightarrow>
          (case doSubmit BACKENDS r NoArgs (s\<lparr>token := client_token\<rparr>) of
             (Some e, s1) \<Rightarrow> unwrapToken_catch e s1
           | (None, s1) \<Rightarrow> (None, s1)))"

definition unwrapToken ::
  "backend list \<Rightarrow> auth_run \<Rightarrow> js_error + jsval \<Rightarrow> jsval \<Rightarrow> component
     \<Rightarrow> js_error option \<times> component" where
  "unwrapToken BACKENDS r response tok s =
     unwrapToken_settle BACKENDS r response (unwrapToken_start tok s)"

text \<open>
  \<^verbatim>\<open>fetchMethods\<close> after \<^verbatim>\<open>findAll\<close> has settled, to an error or to the serialized
  mounts.
\<close>

definition fetchMethods_settle ::
  "js_error + backend list \<Rightarrow> component \<Rightarrow> js_error option \<times> component" where
  "fetchMethods_settle response s =
     (case response of
        Inr ms \<Rightarrow> (None, s\<lparr>methods := Some ms\<rparr>)
      | Inl e \<Rightarrow>
          (case errors0 e of
             None \<Rightarrow> (Some TypeError, s)
           | Some m \<Rightarrow>
               (None, s\<lparr>error := Str (''There was an error fetching Auth Methods: '' @ toString m)\<rparr>)))"

definition fetchMethods :: "js_error + backend list \<Rightarrow> component \<Rightarrow> js_error option \<times> component" where
  "fetchMethods response s = fetchMethods_settle response (fetchMethods_start s)"

text \<open>The calls to the auth service, in order.\<close>

fun auth_calls :: "event list \<Rightarrow> (jsval \<times> jsval \<times> data \<times> jsval) list" where
  "auth_calls [] = []"
| "auth_calls (AuthAuthenticate c b d sel # es) = (c, b, d, sel) # auth_calls es"
| "auth_calls (e # es) = auth_calls es"

section \<open>The base64url codec\<close>

text \<open>
  \<^verbatim>\<open>btoa\<close> and \<^verbatim>\<open>atob\<close> are the browser's: \<^verbatim>\<open>btoa\<close> is base64 with padding, \<^verbatim>\<open>atob\<close>
  the forgiving base64 decoder (it drops ASCII whitespace, takes off the padding of an
  input whose length is a multiple of four, fails on a length of one modulo four and
  on any character outside the base64 alphabet, and drops the bits of an incomplete
  byte at the end). A byte sequence is the content of the \<^verbatim>\<open>ArrayBuffer\<close> or
  \<^verbatim>\<open>Uint8Array\<close>; the binary string between the two calls has one character per byte.
\<close>

type_synonym bytes = "8 word list"

definition b64_alphabet :: string where
  "b64_alphabet = ''ABCDEFGHIJKLMNOPQRSTUVWXYZabcdefghijklmnopqrstuvwxyz0123456789+/''"

definition b64_char :: "nat \<Rightarrow> char" where
  "b64_char n = b64_alphabet ! (n mod 64)"

fun index_of :: "char \<Rightarrow> string \<Rightarrow> nat option" where
  "index_of c [] = None"
| "index_of c (x # xs) = (if c = x then Some 0 else map_option Suc (index_of c xs))"

definition b64_index :: "char \<Rightarrow> nat option" where
  "b64_index c = index_of c b64_alphabet"

fun btoa :: "bytes \<Rightarrow> string" where
  "btoa [] = []"
| "btoa [a] =
     [b64_char (unat a div 4), b64_char ((unat a mod 4) * 16), CHR ''='', CHR ''='']"
| "btoa [a, b] =
     [b64_char (unat a div 4), b64_char ((unat a mod 4) * 16 + unat b div 16),
      b64_char ((unat b mod 16) * 4), CHR ''='']"
| "btoa (a # b # c # rest) =
     [b64_char (unat a div 4), b64_char ((unat a mod 4) * 16 + unat b div 16),
      b64_char ((unat b mod 16) * 4 + unat c div 64), b64_char (unat c mod 64)] @ btoa rest"

definition replace_char :: "char \<Rightarrow> char \<Rightarrow> string \<Rightarrow> string" where
  "replace_char x y s = map (\<lambda>c. if c = x then y else c) s"

text \<open>\<^verbatim>\<open>.replace(/=/g, '')\<close>: every padding character is taken out.\<close>

definition unpad :: "string \<Rightarrow> string" where
  "unpad s = filter (\<lambda>c. c \<noteq> CHR ''='') s"

definition bufferEncode :: "bytes \<Rightarrow> string" where
  "bufferEncode v =
     unpad (replace_char CHR ''/'' CHR ''_'' (replace_char CHR ''+'' CHR ''-'' (btoa v)))"

definition ascii_whitespace :: "char \<Rightarrow> bool" where
  "ascii_whitespace c = ((of_char c :: nat) \<in> {9, 10, 12, 13, 32})"

definition strip_padding :: "string \<Rightarrow> string" where
  "strip_padding s =
     (if length s mod 4 = 0 \<and> s \<noteq> [] \<and> last s = CHR ''='' then
        (if butlast s \<noteq> [] \<and> last (butlast s) = CHR ''='' then butlast (butlast s)
         else butlast s)
      else s)"

fun sextets :: "string \<Rightarrow> nat list option" where
  "sextets [] = Some []"
| "sextets (c # cs) =
     (case b64_index c of
        None \<Rightarrow> None
      | Some n \<Rightarrow> (case sextets cs of None \<Rightarrow> None | Some ns \<Rightarrow> Some (n # ns)))"

fun octets :: "nat list \<Rightarrow> bytes" where
  "octets (a # b # c # d # rest) =
     [of_nat (a * 4 + b div 16), of_nat ((b mod 16) * 16 + c div 4), of_nat ((c mod 4) * 64 + d)]
       @ octets rest"
| "octets [a, b, c] = [of_nat (a * 4 + b div 16), of_nat ((b mod 16) * 16 + c div 4)]"
| "octets [a, b] = [of_nat (a * 4 + b div 16)]"
| "octets ns = []"

definition atob :: "string \<Rightarrow> js_error + bytes" where
  "atob v =
     (let d = strip_padding (filter (\<lambda>c. \<not> ascii_whitespace c) v) in
      if length d mod 4 = 1 then Inl InvalidCharacterError
      else (case sextets d of None \<Rightarrow> Inl InvalidCharacterError | Some ns \<Rightarrow> Inr (octets ns)))"

definition bufferDecode :: "string \<Rightarrow> js_error + bytes" where
  "bufferDecode v = atob v"

section \<open>The WebAuthn login ceremony\<close>

text \<open>
  What the outside does in one run of \<^verbatim>\<open>webauthnAuthenticate\<close>: the options the
  login-begin request resolves to (the challenge and the ids of the allowed
  credentials, as text), the assertion of the platform, and whether the login-finish
  request and the parsing of its answer succeed. Each can fail instead.
\<close>

record assertion =
  as_id :: string
  as_rawId :: bytes
  as_type :: string
  authenticatorData :: bytes
  clientDataJSON :: bytes
  signature :: bytes
  userHandle :: bytes

record login_run =
  beginResponse :: "js_error + string \<times> string list"
  credentials_get :: "js_error + assertion"
  finishResponse :: "js_error option"

fun decode_ids :: "string list \<Rightarrow> js_error + bytes list" where
  "decode_ids [] = Inr []"
| "decode_ids (x # xs) =
     (case bufferDecode x of
        Inl e \<Rightarrow> Inl e
      | Inr b \<Rightarrow> (case decode_ids xs of Inl e \<Rightarrow> Inl e | Inr bs \<Rightarrow> Inr (b # bs)))"

definition finish_body :: "assertion \<Rightarrow> data" where
  "finish_body a =
     [(''id'', Str (as_id a)),
      (''rawId'', Str (bufferEncode (as_rawId a))),
      (''type'', Str (as_type a)),
      (''response.authenticatorData'', Str (bufferEncode (authenticatorData a))),
      (''response.clientDataJSON'', Str (bufferEncode (clientDataJSON a))),
      (''response.signature'', Str (bufferEncode (signature a))),
      (''response.userHandle'', Str (bufferEncode (userHandle a)))]"

text \<open>
  The promise chain after the first \<^verbatim>\<open>fetch\<close>; whatever fails in it ends in the
  \<^verbatim>\<open>catch\<close> at the end, which logs the error.
\<close>

definition login_chain :: "login_run \<Rightarrow> string \<Rightarrow> component \<Rightarrow> js_error option \<times> component" where
  "login_chain r user s =
     (case beginResponse r of
        Inl e \<Rightarrow> (Some e, s)
      | Inr (challenge, ids) \<Rightarrow>
          (case bufferDecode challenge of
             Inl e \<Rightarrow> (Some e, s)
           | Inr ch \<Rightarrow>
               (case decode_ids ids of
                  Inl e \<Rightarrow> (Some e, s)
                | Inr allow \<Rightarrow>
                    (let s1 = emit (CredentialsGet ch allow) s in
                     case credentials_get r of
                       Inl e \<Rightarrow> (Some e, s1)
                     | Inr a \<Rightarrow>
                         (finishResponse r,
                          emit (Fetch ''POST'' (''/login/finish/'' @ user)
                                  (Some (finish_body a))) s1)))))"

text \<open>
  \<^verbatim>\<open>webauthnAuthenticate(e)\<close>: \<^verbatim>\<open>e.preventDefault()\<close> on a missing event is a
  TypeError that rejects the task; otherwise the user name is read and the login-begin
  request is made.
\<close>

definition webauthnAuthenticate ::
  "login_run \<Rightarrow> dom_event option \<Rightarrow> component \<Rightarrow> js_error option \<times> component" where
  "webauthnAuthenticate r e s =
     (case e of
        None \<Rightarrow> (Some TypeError, s)
      | Some ev \<Rightarrow>
          (let user = toString (username s);
               s1 = emit (Fetch ''GET'' (''/login/begin/'' @ user) None) s
           in case login_chain r user s1 of
                (Some err, s2) \<Rightarrow> (None, emit (ConsoleError err) s2)
              | (None, s2) \<Rightarrow> (None, s2)))"

text \<open>The requests made, in order.\<close>

fun requests :: "event list \<Rightarrow> (string \<times> string) list" where
  "requests [] = []"
| "requests (Fetch m u b # es) = (m, u) # requests es"
| "requests (e # es) = requests es"

section \<open>Properties of the attribute-change pass\<close>


lemma fetches_append: "fetches (xs @ ys) = fetches xs + fetches ys"
  by (induction xs rule: fetches.induct) simp_all

lemma auth_calls_append: "auth_calls (xs @ ys) = auth_calls xs @ auth_calls ys"
  by (induction xs rule: auth_calls.induct) simp_all

lemma requests_append: "requests (xs @ ys) = requests xs @ requests ys"
  by (induction xs rule: requests.induct) simp_all

lemmas pass_defs = didReceiveAttrs_def didReceiveAttrs_next_def read_attrs_def Let_def
  fetchMethods_start_def unwrapToken_start_def resetDefaults_def emit_def















text \<open>
  Claim C4, as the code has it. On a pass where the previous \<open>selectedAuth\<close> is
  non-empty and differs from the new one, \<open>token\<close>, \<open>username\<close>, \<open>password\<close> and
  \<open>customPath\<close> are cleared; \<open>error\<close> is left as it was.
\<close>

theorem reset_on_backend_change:
  assumes "truthy (oldSelectedAuth s)" and "oldSelectedAuth s \<noteq> selectedAuth s"
  shows "token (didReceiveAttrs s) = Null \<and> username (didReceiveAttrs s) = Null
       \<and> password (didReceiveAttrs s) = Null \<and> customPath (didReceiveAttrs s) = Null
       \<and> error (didReceiveAttrs s) = error s"
  using assms by (simp add: pass_defs)

theorem reset_on_backend_change_witness:
  "truthy (Str ''userpass'') \<and> Str ''userpass'' \<noteq> Str ''token''
   \<and> token (didReceiveAttrs (init\<lparr>oldSelectedAuth := Str ''userpass'',
        selectedAuth := Str ''token'', token := Str ''t'', username := Str ''u'',
        password := Str ''p'', customPath := Str ''c'',
        error := Str ''Authentication failed: permission denied''\<rparr>)) = Null
   \<and> error (didReceiveAttrs (init\<lparr>oldSelectedAuth := Str ''userpass'',
        selectedAuth := Str ''token'', token := Str ''t'', username := Str ''u'',
        password := Str ''p'', customPath := Str ''c'',
        error := Str ''Authentication failed: permission denied''\<rparr>))
      = Str ''Authentication failed: permission denied''"
  using reset_on_backend_change [of "init\<lparr>oldSelectedAuth := Str ''userpass'',
        selectedAuth := Str ''token'', token := Str ''t'', username := Str ''u'',
        password := Str ''p'', customPath := Str ''c'',
        error := Str ''Authentication failed: permission denied''\<rparr>"]
  by (simp add: init_def)

text \<open>
  Against claim C4 as stated: the selected backend changes from \<open>userpass\<close> to
  \<open>token\<close> and the error message of the earlier attempt is still there after the
  pass.
\<close>

theorem error_survives_backend_change:
  "error (didReceiveAttrs (init\<lparr>oldSelectedAuth := Str ''userpass'',
      selectedAuth := Str ''token'',
      error := Str ''Authentication failed: permission denied''\<rparr>))
     = Str ''Authentication failed: permission denied''"
  by (simp add: pass_defs init_def)

text \<open>
  Claim C5, as the code has it. On a pass with no wrapped token, method discovery is
  performed exactly when the last-observed namespace is \<^verbatim>\<open>null\<close> or differs from the
  current namespace, and the current namespace becomes the last-observed one. The
  last-observed namespace is \<^verbatim>\<open>null\<close> on the first pass and stays \<^verbatim>\<open>null\<close> as long
  as the namespace is \<^verbatim>\<open>null\<close>.
\<close>

theorem fetch_iff_old_namespace_null_or_changed:
  assumes "\<not> truthy (wrappedToken s)"
  shows "fetches (events (didReceiveAttrs s)) =
           fetches (events s)
             + (if oldNamespace s = Null \<or> oldNamespace s \<noteq> namespace s then 1 else 0)
       \<and> oldNamespace (didReceiveAttrs s) = namespace s"
  using assms by (simp add: pass_defs fetches_append)

theorem fetch_iff_old_namespace_null_or_changed_witness:
  "\<not> truthy (wrappedToken (init\<lparr>oldNamespace := Str ''ns1'', namespace := Str ''ns1''\<rparr>))
   \<and> fetches (events (didReceiveAttrs
        (init\<lparr>oldNamespace := Str ''ns1'', namespace := Str ''ns1''\<rparr>))) = 0
   \<and> \<not> truthy (wrappedToken (init\<lparr>oldNamespace := Str ''ns1'', namespace := Str ''ns2''\<rparr>))
   \<and> fetches (events (didReceiveAttrs
        (init\<lparr>oldNamespace := Str ''ns1'', namespace := Str ''ns2''\<rparr>))) = 1"
  using
    fetch_iff_old_namespace_null_or_changed
      [of "init\<lparr>oldNamespace := Str ''ns1'', namespace := Str ''ns1''\<rparr>"]
    fetch_iff_old_namespace_null_or_changed
      [of "init\<lparr>oldNamespace := Str ''ns1'', namespace := Str ''ns2''\<rparr>"]
  by (simp add: init_def)

text \<open>
  Against claim C5 as stated: the namespace is unset (\<^verbatim>\<open>null\<close>) on the first pass
  and on the second, and the second pass performs method discovery again.
\<close>

theorem null_namespace_fetched_again:
  "oldNamespace
     (deliver \<lparr>d_wrappedToken = Null, d_namespace = Null, d_selectedAuth = Null\<rparr> init) = Null
   \<and> fetches (events
       (deliver \<lparr>d_wrappedToken = Null, d_namespace = Null, d_selectedAuth = Null\<rparr> init)) = 1
   \<and> fetches (events
       (deliver \<lparr>d_wrappedToken = Null, d_namespace = Null, d_selectedAuth = Null\<rparr>
         (deliver \<lparr>d_wrappedToken = Null, d_namespace = Null, d_selectedAuth = Null\<rparr> init))) = 2"
  by (simp add: deliver_def pass_defs init_def fetches_append)

section \<open>Properties of the method list\<close>

lemma find_not_None: "(find P xs \<noteq> None) = (\<exists>x \<in> set xs. P x)"
  by (auto simp add: find_None_iff)

lemma methodsToShow_filter:
  "methodsToShow BACKENDS s =
     (let shown = filter (\<lambda>m. \<exists>b \<in> set BACKENDS. toLowerCase (type b) = toLowerCase (type m))
                    (case methods s of None \<Rightarrow> [] | Some ms \<Rightarrow> ms)
      in if shown = [] then BACKENDS else shown)"
  unfolding methodsToShow_def find_not_None by (simp add: Let_def)

text \<open>
  Claim C7. \<open>methodsToShow\<close> is the subsequence of \<open>methods\<close> whose type is, in lower
  case, the type of some catalog entry, when that subsequence is not empty, and the
  whole catalog otherwise; with \<open>methods\<close> unset or empty it is the whole catalog.
\<close>

theorem methodsToShow_spec:
  "methodsToShow BACKENDS s =
     (if filter (\<lambda>m. \<exists>b \<in> set BACKENDS. toLowerCase (type b) = toLowerCase (type m))
           (case methods s of None \<Rightarrow> [] | Some ms \<Rightarrow> ms) = []
      then BACKENDS
      else filter (\<lambda>m. \<exists>b \<in> set BACKENDS. toLowerCase (type b) = toLowerCase (type m))
           (case methods s of None \<Rightarrow> [] | Some ms \<Rightarrow> ms))
   \<and> (methods s = None \<or> methods s = Some [] \<longrightarrow> methodsToShow BACKENDS s = BACKENDS)"
  by (auto simp add: methodsToShow_filter Let_def)

theorem methodsToShow_spec_witness:
  "methodsToShow
     [\<lparr>type = ''token'', path = Undefined, id' = Undefined, formAttributes = Some [''token'']\<rparr>,
      \<lparr>type = ''userpass'', path = Undefined, id' = Undefined,
        formAttributes = Some [''username'', ''password'']\<rparr>]
     (init\<lparr>methods := Some
       [\<lparr>type = ''Userpass'', path = Str ''foo/'', id' = Str ''foo'', formAttributes = None\<rparr>,
        \<lparr>type = ''approle'', path = Str ''approle/'', id' = Str ''approle'',
          formAttributes = None\<rparr>]\<rparr>)
   = [\<lparr>type = ''Userpass'', path = Str ''foo/'', id' = Str ''foo'', formAttributes = None\<rparr>]"
  (is "methodsToShow ?B ?s = ?r")
proof -
  have "methodsToShow ?B ?s =
     (if filter (\<lambda>m. \<exists>b \<in> set ?B. toLowerCase (type b) = toLowerCase (type m))
           (case methods ?s of None \<Rightarrow> [] | Some ms \<Rightarrow> ms) = []
      then ?B
      else filter (\<lambda>m. \<exists>b \<in> set ?B. toLowerCase (type b) = toLowerCase (type m))
           (case methods ?s of None \<Rightarrow> [] | Some ms \<Rightarrow> ms))"
    using methodsToShow_spec [of ?B ?s] by (rule conjunct1)
  also have "\<dots> = ?r" by code_simp
  finally show ?thesis .
qed

section \<open>Properties of authenticate and submit\<close>

lemma events_emit: "events (emit ev s) = events s @ [ev]"
  by (simp add: emit_def)

lemma authenticate_catch_keeps:
  "selectedAuth (authenticate_catch r e s) = selectedAuth s"
  "token (authenticate_catch r e s) = token s"
  "events (authenticate_catch r e s) = events s"
  by (simp_all add: authenticate_catch_def Let_def)

lemma authenticate_settle_keeps:
  "selectedAuth (authenticate_settle r b d s) = selectedAuth s"
  "token (authenticate_settle r b d s) = token s"
  "auth_calls (events (authenticate_settle r b d s)) = auth_calls (events s)"
  by (simp_all add: authenticate_settle_def authenticate_catch_keeps emit_def Let_def
      auth_calls_append split: sum.splits option.splits)

lemma authenticate_keeps:
  "selectedAuth (snd (authenticate r b d s)) = selectedAuth s"
  "token (snd (authenticate r b d s)) = token s"
  by (simp_all add: authenticate_def authenticate_start_def authenticate_settle_keeps emit_def
      split: option.splits)

lemma authenticate_calls:
  "auth_calls (events (snd (authenticate r b d s))) =
     auth_calls (events s) @
       (case cluster s of None \<Rightarrow> [] | Some c \<Rightarrow> [(c, b, d, selectedAuth s)])"
  by (simp add: authenticate_def authenticate_start_def authenticate_settle_keeps emit_def
      auth_calls_append split: option.splits)

lemma doSubmit_prepare_state: "snd (doSubmit_prepare B args s) = s\<lparr>error := Null\<rparr>"
  by (simp add: doSubmit_prepare_def Let_def split: sum.splits lookup.splits)

lemma doSubmit_keeps:
  "selectedAuth (snd (doSubmit B r args s)) = selectedAuth s"
  "token (snd (doSubmit B r args s)) = token s"
proof -
  obtain x s1 where p: "doSubmit_prepare B args s = (x, s1)"
    by (cases "doSubmit_prepare B args s")
  then have s1: "s1 = s\<lparr>error := Null\<rparr>"
    using doSubmit_prepare_state [of B args s] by simp
  show "selectedAuth (snd (doSubmit B r args s)) = selectedAuth s"
    by (cases x) (auto simp add: doSubmit_def p s1 authenticate_keeps)
  show "token (snd (doSubmit B r args s)) = token s"
    by (cases x) (auto simp add: doSubmit_def p s1 authenticate_keeps)
qed

text \<open>
  Claim C6. When an \<^verbatim>\<open>authenticate\<close> run fails (the call to the auth service is
  rejected, or the success callback throws), \<open>isLoading\<close> is set to \<^verbatim>\<open>false\<close>; the
  error becomes \<^verbatim>\<open>Authentication failed: \<close> followed by what \<^verbatim>\<open>handleError\<close> makes of
  the failure, unless \<^verbatim>\<open>auth.mfaError\<close> is set, in which case the error is left as it
  was. The component has a cluster.
\<close>

theorem authenticate_failure:
  assumes "cluster s = Some cid"
    and "authResponse r = Inl e
         \<or> (\<exists>resp. authResponse r = Inr resp \<and> onSuccessThrows r = Some e)"
  shows "isLoading (snd (authenticate r backendType dat s)) = Bool False
       \<and> error (snd (authenticate r backendType dat s)) =
           (if truthy (mfaError r) then error s
            else Str (''Authentication failed: '' @ toString (handleError r e)))"
  using assms
  by (auto simp add: authenticate_def authenticate_start_def authenticate_settle_def
      authenticate_catch_def emit_def Let_def)

theorem authenticate_failure_witness:
  "isLoading (snd (authenticate
       \<lparr>authResponse = Inl (ServerError [''Not allowed'']), onSuccessThrows = None,
         mfaError = Undefined,
         handleError = (\<lambda>e. case errors0 e of None \<Rightarrow> Null | Some v \<Rightarrow> v)\<rparr>
       (Str ''token'') [(''token'', Str ''t'')]
       (init\<lparr>cluster := Some Undefined, isLoading := Bool True\<rparr>))) = Bool False
   \<and> error (snd (authenticate
       \<lparr>authResponse = Inl (ServerError [''Not allowed'']), onSuccessThrows = None,
         mfaError = Undefined,
         handleError = (\<lambda>e. case errors0 e of None \<Rightarrow> Null | Some v \<Rightarrow> v)\<rparr>
       (Str ''token'') [(''token'', Str ''t'')]
       (init\<lparr>cluster := Some Undefined, isLoading := Bool True\<rparr>)))
     = Str ''Authentication failed: Not allowed''
   \<and> error (snd (authenticate
       \<lparr>authResponse = Inl (ServerError [''Not allowed'']), onSuccessThrows = None,
         mfaError = Bool True,
         handleError = (\<lambda>e. case errors0 e of None \<Rightarrow> Null | Some v \<Rightarrow> v)\<rparr>
       (Str ''token'') [(''token'', Str ''t'')]
       (init\<lparr>cluster := Some Undefined, isLoading := Bool True\<rparr>)))
     = Undefined"
  using
    authenticate_failure [of "init\<lparr>cluster := Some Undefined, isLoading := Bool True\<rparr>" Undefined
      "\<lparr>authResponse = Inl (ServerError [''Not allowed'']), onSuccessThrows = None,
         mfaError = Undefined,
         handleError = (\<lambda>e. case errors0 e of None \<Rightarrow> Null | Some v \<Rightarrow> v)\<rparr>"
      "ServerError [''Not allowed'']" "Str ''token''" "[(''token'', Str ''t'')]"]
    authenticate_failure [of "init\<lparr>cluster := Some Undefined, isLoading := Bool True\<rparr>" Undefined
      "\<lparr>authResponse = Inl (ServerError [''Not allowed'']), onSuccessThrows = None,
         mfaError = Bool True,
         handleError = (\<lambda>e. case errors0 e of None \<Rightarrow> Null | Some v \<Rightarrow> v)\<rparr>"
      "ServerError [''Not allowed'']" "Str ''token''" "[(''token'', Str ''t'')]"]
  by (simp add: init_def)

text \<open>
  Claim C10. \<^verbatim>\<open>doSubmit\<close> sets \<open>error\<close> to \<^verbatim>\<open>null\<close> first: the error is \<^verbatim>\<open>null\<close> once
  the backend is resolved and the data gathered, also when resolving throws, and
  still when the action returns; what the action does is what it does on a component
  whose error is already \<^verbatim>\<open>null\<close>, so an earlier failure plays no part.
\<close>

theorem doSubmit_clears_error:
  "error (snd (doSubmit_prepare BACKENDS args s)) = Null
   \<and> error (snd (doSubmit_sync BACKENDS args s)) = Null
   \<and> doSubmit_sync BACKENDS args s = doSubmit_sync BACKENDS args (s\<lparr>error := Null\<rparr>)
   \<and> doSubmit BACKENDS r args s = doSubmit BACKENDS r args (s\<lparr>error := Null\<rparr>)"
proof -
  have a: "error (snd (doSubmit_prepare BACKENDS args s)) = Null"
    by (simp add: doSubmit_prepare_state)
  have st: "error (snd (authenticate_start b d t)) = error t" for b d t
    by (simp add: authenticate_start_def emit_def split: option.splits)
  obtain x s1 where p: "doSubmit_prepare BACKENDS args s = (x, s1)"
    by (cases "doSubmit_prepare BACKENDS args s")
  then have s1: "s1 = s\<lparr>error := Null\<rparr>"
    using doSubmit_prepare_state [of BACKENDS args s] by simp
  have b: "error (snd (doSubmit_sync BACKENDS args s)) = Null"
    by (cases x) (auto simp add: doSubmit_sync_def p s1 st)
  have q: "doSubmit_prepare BACKENDS args (s\<lparr>error := Null\<rparr>) = doSubmit_prepare BACKENDS args s"
    by (simp add: doSubmit_prepare_def)
  show ?thesis using a b by (simp add: doSubmit_sync_def doSubmit_def q)
qed

theorem doSubmit_clears_error_witness:
  "error (snd (doSubmit_sync
       [\<lparr>type = ''token'', path = Undefined, id' = Undefined, formAttributes = Some [''token'']\<rparr>]
       (OneArg (Some DomEvent))
       (init\<lparr>selectedAuth := Str ''token'', cluster := Some (Str ''1''),
          error := Str ''Authentication failed: permission denied''\<rparr>))) = Null"
  using doSubmit_clears_error [of
       "[\<lparr>type = ''token'', path = Undefined, id' = Undefined, formAttributes = Some [''token'']\<rparr>]"
       "OneArg (Some DomEvent)"
       "init\<lparr>selectedAuth := Str ''token'', cluster := Some (Str ''1''),
          error := Str ''Authentication failed: permission denied''\<rparr>"]
  by (rule conjunct2 [THEN conjunct1])

section \<open>Properties of the token unwrap\<close>

lemma unwrapToken_catch_keeps:
  "selectedAuth (snd (unwrapToken_catch e s)) = selectedAuth s"
  "token (snd (unwrapToken_catch e s)) = token s"
  "events (snd (unwrapToken_catch e s)) = events s"
  by (simp_all add: unwrapToken_catch_def split: option.splits)

text \<open>
  Claim C9. \<open>selectedAuth\<close> is \<^verbatim>\<open>token\<close> when the exchange call is made, and it is
  \<^verbatim>\<open>token\<close> after the run of \<^verbatim>\<open>unwrapToken\<close>, whatever the exchange call settles to
  and whatever the submit that follows does: the failure path does not put the
  earlier selection back.
\<close>

theorem unwrap_forces_token_backend:
  "selectedAuth (unwrapToken_start tok s) = Str ''token''
   \<and> selectedAuth (snd (unwrapToken BACKENDS r response tok s)) = Str ''token''"
proof -
  have start: "selectedAuth (unwrapToken_start tok s) = Str ''token''"
    by (simp add: unwrapToken_start_def emit_def)
  have run: "selectedAuth (snd (unwrapToken BACKENDS r response tok s)) = Str ''token''"
  proof (cases response)
    case (Inl e)
    then show ?thesis
      by (simp add: unwrapToken_def unwrapToken_settle_def unwrapToken_catch_keeps start)
  next
    case (Inr ct)
    let ?s1 = "(unwrapToken_start tok s)\<lparr>token := ct\<rparr>"
    obtain x s2 where d: "doSubmit BACKENDS r NoArgs ?s1 = (x, s2)"
      by (cases "doSubmit BACKENDS r NoArgs ?s1")
    have "selectedAuth s2 = selectedAuth ?s1"
      using doSubmit_keeps(1) [of BACKENDS r NoArgs ?s1] d by simp
    then have s2: "selectedAuth s2 = Str ''token''"
      by (simp add: start)
    show ?thesis
      using Inr d s2
      by (cases x) (simp_all add: unwrapToken_def unwrapToken_settle_def unwrapToken_catch_keeps)
  qed
  from start run show ?thesis by (rule conjI)
qed

theorem unwrap_forces_token_backend_witness:
  "selectedAuth (init\<lparr>selectedAuth := Str ''userpass'', wrappedToken := Str ''54321''\<rparr>)
     = Str ''userpass''
   \<and> selectedAuth (snd (unwrapToken
       [\<lparr>type = ''token'', path = Undefined, id' = Undefined, formAttributes = Some [''token'']\<rparr>]
       \<lparr>authResponse = Inr Null, onSuccessThrows = None, mfaError = Undefined,
         handleError = (\<lambda>e. Null)\<rparr>
       (Inl (ServerError [''There was an error unwrapping!'']))
       (Str ''54321'')
       (init\<lparr>selectedAuth := Str ''userpass'', wrappedToken := Str ''54321''\<rparr>)))
     = Str ''token''"
  using unwrap_forces_token_backend [where
       BACKENDS = "[\<lparr>type = ''token'', path = Undefined, id' = Undefined,
                     formAttributes = Some [''token'']\<rparr>]"
       and r = "\<lparr>authResponse = Inr Null, onSuccessThrows = None, mfaError = Undefined,
         handleError = (\<lambda>e. Null)\<rparr>"
       and response = "Inl (ServerError [''There was an error unwrapping!''])"
       and tok = "Str ''54321''"
       and s = "init\<lparr>selectedAuth := Str ''userpass'', wrappedToken := Str ''54321''\<rparr>"]
  by (simp add: init_def)

lemma toLowerCase_token: "toLowerCase ''token'' = ''token''"
  by code_simp

lemma dasherize_token: "dasherize ''token'' = ''token''"
  by (simp add: dasherize_def)

lemma type_key_Str: "type_key (Str t) = toLowerCase t"
  by (simp add: type_key_def js_or_def toLowerCase_def)

lemma map_of_fold_update:
  "map_of (fold (\<lambda>k. AList.update k (f k)) names acc) k =
     (if k \<in> set names then Some (f k) else map_of acc k)"
  by (induction names arbitrary: acc) (auto simp add: update_conv')

lemma map_of_getProperties:
  "map_of (getProperties s names) k = (if k \<in> set names then Some (get_prop s k) else None)"
  by (simp add: getProperties_def map_of_fold_update)

lemma distinct_fold_update:
  "distinct (map fst acc) \<Longrightarrow> distinct (map fst (fold (\<lambda>k. AList.update k (f k)) names acc))"
  by (induction names arbitrary: acc) (simp_all add: distinct_update)

lemma distinct_getProperties: "distinct (map fst (getProperties s names))"
  by (simp add: getProperties_def distinct_fold_update)

lemma map_of_assign:
  "distinct (map fst src) \<Longrightarrow> map_of (assign t src) = map_of t ++ map_of src"
  unfolding assign_def
proof (induction src arbitrary: t)
  case Nil
  show ?case by simp
next
  case (Cons p src)
  obtain k v where p: "p = (k, v)" by (cases p)
  from Cons.prems p have k: "map_of src k = None" and d: "distinct (map fst src)"
    by (auto simp add: map_of_eq_None_iff)
  have "map_of (fold (\<lambda>(k, v). AList.update k v) (p # src) t)
          = (map_of t)(k \<mapsto> v) ++ map_of src"
    by (simp add: p Cons.IH [OF d] update_conv' fun_upd_def)
  also have "\<dots> = map_of t ++ map_of (p # src)"
    using k by (auto simp add: p map_add_def fun_eq_iff split: option.splits)
  finally show ?case .
qed

lemma gather_token:
  assumes "find (\<lambda>b. type_key (Str (type b)) = type_key (lookup_type backend)) BACKENDS = Some b1"
    and "formAttributes b1 = Some as" and "''token'' \<in> set as"
  shows "map_of (gather BACKENDS backend None s) ''token'' = Some (token s)"
  using assms
  by (simp add: gather_def Let_def map_of_assign distinct_getProperties map_of_getProperties
      update_conv' get_prop_def)

lemma unwrap_success:
  assumes h1: "truthy (wrappedToken s) \<or> methods s \<noteq> None"
    and h2: "\<exists>b \<in> set BACKENDS. type b = ''token''"
    and h3: "\<forall>b \<in> set BACKENDS. toLowerCase (type b) = ''token'' \<longrightarrow>
               (\<exists>as. formAttributes b = Some as \<and> ''token'' \<in> set as)"
    and h4: "cluster s = Some cid"
  shows "token (snd (unwrapToken BACKENDS r (Inr ct) tok s)) = ct
       \<and> (\<exists>dat. auth_calls (events (snd (unwrapToken BACKENDS r (Inr ct) tok s)))
                  = auth_calls (events s) @ [(cid, Str ''token'', dat, Str ''token'')]
              \<and> map_of dat ''token'' = Some ct)"
proof -
  let ?s1 = "(unwrapToken_start tok s)\<lparr>token := ct\<rparr>"
  let ?s2 = "?s1\<lparr>error := Null\<rparr>"
  from h2 obtain b0 where b0: "find (\<lambda>b. Str (type b) = Str ''token'') BACKENDS = Some b0"
    by (cases "find (\<lambda>b. Str (type b) = Str ''token'') BACKENDS") (auto simp add: find_None_iff)
  then have tb0: "type b0 = ''token''" by (auto simp add: find_Some_iff)
  have sel: "selectedAuthBackend BACKENDS ?s2 = Inr (Found b0)"
    using h1 b0
    by (auto simp add: selectedAuthBackend_def getAuthBackend_def Let_def js_or_def
        selectedAuthIsPath_def unwrapToken_start_def emit_def findBy_type_def)
  have pn: "providerName BACKENDS ?s2 = Inr (Str ''token'')"
    by (simp add: providerName_def sel tb0 js_or_def toLowerCase_token dasherize_token)
  have rb: "resolve_backend BACKENDS ?s2 = Inr (Found b0)"
    by (simp add: resolve_backend_def pn sel)
  from h2 obtain b1 where
    b1: "find (\<lambda>b. type_key (Str (type b)) = type_key (lookup_type (Found b0))) BACKENDS = Some b1"
    by (cases "find (\<lambda>b. type_key (Str (type b)) = type_key (lookup_type (Found b0))) BACKENDS")
      (auto simp add: find_None_iff type_key_Str tb0 toLowerCase_token)
  then have "b1 \<in> set BACKENDS" and "toLowerCase (type b1) = ''token''"
    by (auto simp add: find_Some_iff type_key_Str tb0 toLowerCase_token)
  with h3 obtain as where as: "formAttributes b1 = Some as" "''token'' \<in> set as" by blast
  let ?dat = "gather BACKENDS (Found b0) None ?s2"
  have tok: "map_of ?dat ''token'' = Some ct"
    using gather_token [OF b1 as] by simp
  have prep: "doSubmit_prepare BACKENDS NoArgs ?s1 = (Inr (Str ''token'', ?dat), ?s2)"
    by (simp add: doSubmit_prepare_def Let_def rb tb0)
  have ds: "doSubmit BACKENDS r NoArgs ?s1 = (None, snd (authenticate r (Str ''token'') ?dat ?s2))"
    by (simp add: doSubmit_def prep)
  have res: "snd (unwrapToken BACKENDS r (Inr ct) tok s)
               = snd (authenticate r (Str ''token'') ?dat ?s2)"
    by (simp add: unwrapToken_def unwrapToken_settle_def ds)
  have t: "token (snd (unwrapToken BACKENDS r (Inr ct) tok s)) = ct"
    by (simp add: res authenticate_keeps)
  have c: "auth_calls (events (snd (unwrapToken BACKENDS r (Inr ct) tok s)))
             = auth_calls (events s) @ [(cid, Str ''token'', ?dat, Str ''token'')]"
    by (simp add: res authenticate_calls h4 unwrapToken_start_def emit_def auth_calls_append)
  from t c tok show ?thesis by blast
qed

lemma unwrap_failure:
  "error (snd (unwrapToken BACKENDS r (Inl (ServerError (m # ms))) tok s))
     = Str (''Token unwrap failed: '' @ m)
   \<and> auth_calls (events (snd (unwrapToken BACKENDS r (Inl (ServerError (m # ms))) tok s)))
     = auth_calls (events s)"
  by (simp add: unwrapToken_def unwrapToken_settle_def unwrapToken_catch_def
      unwrapToken_start_def emit_def auth_calls_append)

text \<open>
  Claim C3. When the exchange call succeeds with a client token, \<open>token\<close> is that
  client token and the submit step makes exactly one call to the auth service, whose
  data has the client token under \<^verbatim>\<open>token\<close>; this is for a component that has a
  cluster and holds the wrapped token (or has methods), and for a catalog with a
  \<^verbatim>\<open>token\<close> backend whose form attributes include \<^verbatim>\<open>token\<close>. When the exchange call
  fails with the server's error strings, \<open>error\<close> is \<^verbatim>\<open>Token unwrap failed: \<close>
  followed by the first of them, and no call to the auth service is made.
\<close>

theorem unwrapToken_outcomes:
  "((truthy (wrappedToken s) \<or> methods s \<noteq> None) \<and>
    (\<exists>b \<in> set BACKENDS. type b = ''token'') \<and>
    (\<forall>b \<in> set BACKENDS. toLowerCase (type b) = ''token'' \<longrightarrow>
       (case formAttributes b of None \<Rightarrow> False | Some as \<Rightarrow> ''token'' \<in> set as)) \<and>
    cluster s = Some cid \<longrightarrow>
      token (snd (unwrapToken BACKENDS r (Inr ct) tok s)) = ct \<and>
      (\<exists>dat. auth_calls (events (snd (unwrapToken BACKENDS r (Inr ct) tok s)))
               = auth_calls (events s) @ [(cid, Str ''token'', dat, Str ''token'')]
           \<and> map_of dat ''token'' = Some ct))
   \<and> error (snd (unwrapToken BACKENDS r (Inl (ServerError (m # ms))) tok s))
       = Str (''Token unwrap failed: '' @ m)
   \<and> auth_calls (events (snd (unwrapToken BACKENDS r (Inl (ServerError (m # ms))) tok s)))
       = auth_calls (events s)"
proof (intro conjI impI)
  assume h: "(truthy (wrappedToken s) \<or> methods s \<noteq> None) \<and>
    (\<exists>b \<in> set BACKENDS. type b = ''token'') \<and>
    (\<forall>b \<in> set BACKENDS. toLowerCase (type b) = ''token'' \<longrightarrow>
       (case formAttributes b of None \<Rightarrow> False | Some as \<Rightarrow> ''token'' \<in> set as)) \<and>
    cluster s = Some cid"
  then have h1: "truthy (wrappedToken s) \<or> methods s \<noteq> None"
    and h2: "\<exists>b \<in> set BACKENDS. type b = ''token''"
    and h4: "cluster s = Some cid"
    by simp_all
  from h have h3: "\<forall>b \<in> set BACKENDS. toLowerCase (type b) = ''token'' \<longrightarrow>
               (\<exists>as. formAttributes b = Some as \<and> ''token'' \<in> set as)"
    by (auto split: option.splits)
  note ok = unwrap_success [OF h1 h2 h3 h4, of r ct tok]
  from ok show "token (snd (unwrapToken BACKENDS r (Inr ct) tok s)) = ct"
    by (rule conjunct1)
  from ok show "\<exists>dat. auth_calls (events (snd (unwrapToken BACKENDS r (Inr ct) tok s)))
               = auth_calls (events s) @ [(cid, Str ''token'', dat, Str ''token'')]
           \<and> map_of dat ''token'' = Some ct"
    by (rule conjunct2)
next
  show "error (snd (unwrapToken BACKENDS r (Inl (ServerError (m # ms))) tok s))
       = Str (''Token unwrap failed: '' @ m)"
    using unwrap_failure [of BACKENDS r m ms tok s] by (rule conjunct1)
next
  show "auth_calls (events (snd (unwrapToken BACKENDS r (Inl (ServerError (m # ms))) tok s)))
       = auth_calls (events s)"
    using unwrap_failure [of BACKENDS r m ms tok s] by (rule conjunct2)
qed

theorem unwrapToken_outcomes_witness:
  "token (snd (unwrapToken
       [\<lparr>type = ''token'', path = Undefined, id' = Undefined, formAttributes = Some [''token'']\<rparr>,
        \<lparr>type = ''userpass'', path = Undefined, id' = Undefined,
          formAttributes = Some [''username'', ''password'']\<rparr>]
       \<lparr>authResponse = Inr Null, onSuccessThrows = None, mfaError = Undefined,
         handleError = (\<lambda>e. Null)\<rparr>
       (Inr (Str ''12345'')) (Str ''54321'')
       (init\<lparr>wrappedToken := Str ''54321'', cluster := Some Undefined\<rparr>)))
     = Str ''12345''
   \<and> (\<exists>dat. auth_calls (events (snd (unwrapToken
       [\<lparr>type = ''token'', path = Undefined, id' = Undefined, formAttributes = Some [''token'']\<rparr>,
        \<lparr>type = ''userpass'', path = Undefined, id' = Undefined,
          formAttributes = Some [''username'', ''password'']\<rparr>]
       \<lparr>authResponse = Inr Null, onSuccessThrows = None, mfaError = Undefined,
         handleError = (\<lambda>e. Null)\<rparr>
       (Inr (Str ''12345'')) (Str ''54321'')
       (init\<lparr>wrappedToken := Str ''54321'', cluster := Some Undefined\<rparr>))))
         = [(Undefined, Str ''token'', dat, Str ''token'')]
       \<and> map_of dat ''token'' = Some (Str ''12345''))"
  (is "token (snd (unwrapToken ?B ?r ?resp ?tok ?s)) = ?ct \<and> ?calls")
proof -
  have h1: "truthy (wrappedToken ?s) \<or> methods ?s \<noteq> None"
    by (simp add: init_def)
  have h2: "\<exists>b \<in> set ?B. type b = ''token''"
    by simp
  have h3: "\<forall>b \<in> set ?B. toLowerCase (type b) = ''token'' \<longrightarrow>
       (case formAttributes b of None \<Rightarrow> False | Some as \<Rightarrow> ''token'' \<in> set as)"
    by code_simp
  have h4: "cluster ?s = Some Undefined"
    by (simp add: init_def)
  have e: "auth_calls (events ?s) = []"
    by (simp add: init_def)
  from unwrapToken_outcomes [of ?s ?B Undefined ?r "Str ''12345''" ?tok "''x''" "[]"] h1 h2 h3 h4
  have "token (snd (unwrapToken ?B ?r ?resp ?tok ?s)) = ?ct \<and>
      (\<exists>dat. auth_calls (events (snd (unwrapToken ?B ?r ?resp ?tok ?s)))
               = auth_calls (events ?s) @ [(Undefined, Str ''token'', dat, Str ''token'')]
           \<and> map_of dat ''token'' = Some ?ct)"
    by blast
  then show ?thesis unfolding e by simp
qed

section \<open>Properties of the WebAuthn login ceremony\<close>

lemma login_chain_requests:
  "\<exists>rest. requests (events (snd (login_chain r user s))) = requests (events s) @ rest"
  by (auto simp add: login_chain_def emit_def requests_append Let_def
      split: sum.splits prod.splits)

lemma webauthn_requests:
  "requests (events (snd (webauthnAuthenticate r (Some ev) s))) =
     requests (events (snd (login_chain r (toString (username s))
        (emit (Fetch ''GET'' (''/login/begin/'' @ toString (username s)) None) s))))"
  unfolding webauthnAuthenticate_def Let_def
  by (cases "login_chain r (toString (username s))
        (emit (Fetch ''GET'' (''/login/begin/'' @ toString (username s)) None) s)")
     (simp add: events_emit requests_append split: option.splits)

text \<open>
  Claim C8, as the code has it. Every run of the login ceremony that is given its
  event makes the login-begin request first, whatever the user name: there is no
  guard, and an unset or empty user name is put into the address as the text
  \<^verbatim>\<open>null\<close>, \<^verbatim>\<open>undefined\<close> or nothing.
\<close>

theorem login_begin_always_requested:
  "\<exists>rest. requests (events (snd (webauthnAuthenticate r (Some ev) s))) =
     requests (events s) @ (''GET'', ''/login/begin/'' @ toString (username s)) # rest"
  unfolding webauthn_requests
  using login_chain_requests [of r "toString (username s)"
      "emit (Fetch ''GET'' (''/login/begin/'' @ toString (username s)) None) s"]
  by (simp add: events_emit requests_append)

theorem login_begin_always_requested_witness:
  "\<exists>rest. requests (events (snd (webauthnAuthenticate
       \<lparr>beginResponse = Inr (''AQID'', [''BAUG'']),
         credentials_get = Inl (OtherError ''NotAllowedError''), finishResponse = None\<rparr>
       (Some DomEvent) (init\<lparr>username := Undefined\<rparr>))))
     = (''GET'', ''/login/begin/undefined'') # rest"
  using login_begin_always_requested [of
       "\<lparr>beginResponse = Inr (''AQID'', [''BAUG'']),
         credentials_get = Inl (OtherError ''NotAllowedError''), finishResponse = None\<rparr>"
       DomEvent "init\<lparr>username := Undefined\<rparr>"]
  by (simp add: init_def)

text \<open>
  Against claim C8 as stated: with the user name unset (\<^verbatim>\<open>null\<close>) and with the user
  name empty, the login-begin request is made.
\<close>

theorem login_begin_requested_without_username:
  "requests (events (snd (webauthnAuthenticate
       \<lparr>beginResponse = Inl (OtherError ''404''),
         credentials_get = Inl (OtherError ''NotAllowedError''), finishResponse = None\<rparr>
       (Some DomEvent) init)))
     = [(''GET'', ''/login/begin/null'')]
   \<and> requests (events (snd (webauthnAuthenticate
       \<lparr>beginResponse = Inl (OtherError ''404''),
         credentials_get = Inl (OtherError ''NotAllowedError''), finishResponse = None\<rparr>
       (Some DomEvent) (init\<lparr>username := Str []\<rparr>))))
     = [(''GET'', ''/login/begin/'')]"
  by (simp add: webauthnAuthenticate_def login_chain_def emit_def init_def Let_def)

section \<open>Properties of the codec\<close>

text \<open>
  Decoding undoes encoding on every byte sequence whose encoding has neither \<^verbatim>\<open>-\<close>
  nor \<^verbatim>\<open>_\<close>, whatever its length: the padding \<^verbatim>\<open>atob\<close> does not need.
\<close>



lemma unat_byte: "unat (a :: 8 word) < 256"
  using unsigned_less [of a, where ?'a = nat] by simp

lemma div16_less: "y < 256 \<Longrightarrow> y div 16 < (16 :: nat)"
  by (rule less_mult_imp_div_less) simp

lemma div64_less: "z < 256 \<Longrightarrow> z div 64 < (4 :: nat)"
  by (rule less_mult_imp_div_less) simp

lemma div4_less: "x < 256 \<Longrightarrow> x div 4 < (64 :: nat)"
  by (rule less_mult_imp_div_less) simp

lemma sextet2_less: "r < 16 \<Longrightarrow> (x mod 4) * 16 + r < (64 :: nat)"
proof -
  assume r: "r < 16"
  have "x mod 4 < 4" by simp
  then have "x mod 4 \<le> 3" by simp
  then have "(x mod 4) * 16 \<le> 3 * 16" by (rule mult_le_mono1)
  with r show ?thesis by simp
qed

lemma sextet3_less: "u < 4 \<Longrightarrow> (y mod 16) * 4 + u < (64 :: nat)"
proof -
  assume u: "u < 4"
  have "y mod 16 < 16" by simp
  then have "y mod 16 \<le> 15" by simp
  then have "(y mod 16) * 4 \<le> 15 * 4" by (rule mult_le_mono1)
  with u show ?thesis by simp
qed

lemma octet1: 
  assumes "x < 256" and "y < 256"
  shows "(x div 4) mod 64 * 4 + (((x mod 4) * 16 + y div 16) mod 64) div 16 = (x :: nat)"
proof -
  have r: "y div 16 < 16" using assms(2) by (rule div16_less)
  have a: "(x div 4) mod 64 = x div 4" using div4_less [OF assms(1)] by simp
  have b: "((x mod 4) * 16 + y div 16) mod 64 = (x mod 4) * 16 + y div 16"
    using sextet2_less [OF r] by simp
  have c: "((x mod 4) * 16 + y div 16) div 16 = x mod 4" using r by simp
  show ?thesis by (simp only: a b c div_mult_mod_eq)
qed

lemma octet2:
  assumes "y < 256" and "z < 256"
  shows "(((x mod 4) * 16 + y div 16) mod 64) mod 16 * 16
           + (((y mod 16) * 4 + z div 64) mod 64) div 4 = (y :: nat)"
proof -
  have r: "y div 16 < 16" using assms(1) by (rule div16_less)
  have u: "z div 64 < 4" using assms(2) by (rule div64_less)
  have b: "((x mod 4) * 16 + y div 16) mod 64 = (x mod 4) * 16 + y div 16"
    using sextet2_less [OF r] by simp
  have b': "((x mod 4) * 16 + y div 16) mod 16 = y div 16" using r by simp
  have c: "((y mod 16) * 4 + z div 64) mod 64 = (y mod 16) * 4 + z div 64"
    using sextet3_less [OF u] by simp
  have c': "((y mod 16) * 4 + z div 64) div 4 = y mod 16" using u by simp
  show ?thesis by (simp only: b b' c c' div_mult_mod_eq)
qed

lemma octet3:
  assumes "z < 256"
  shows "(((y mod 16) * 4 + z div 64) mod 64) mod 4 * 64 + (z mod 64) mod 64 = (z :: nat)"
proof -
  have u: "z div 64 < 4" using assms by (rule div64_less)
  have c: "((y mod 16) * 4 + z div 64) mod 64 = (y mod 16) * 4 + z div 64"
    using sextet3_less [OF u] by simp
  have c': "((y mod 16) * 4 + z div 64) mod 4 = z div 64" using u by simp
  show ?thesis by (simp only: c c' mod_mod_trivial div_mult_mod_eq)
qed

lemma of_nat_unat_byte: "of_nat (unat a) = (a :: 8 word)"
  by simp


lemma length_b64_alphabet: "length b64_alphabet = 64"
  by (simp add: b64_alphabet_def)

lemma distinct_b64_alphabet: "distinct b64_alphabet"
  by code_simp

lemma b64_alphabet_plain:
  "c \<in> set b64_alphabet \<Longrightarrow> c \<noteq> CHR ''='' \<and> \<not> ascii_whitespace c"
  by (auto simp add: b64_alphabet_def ascii_whitespace_def)

lemma b64_char_in: "b64_char n \<in> set b64_alphabet"
  by (simp add: b64_char_def length_b64_alphabet)

lemma b64_char_not_pad: "b64_char n \<noteq> CHR ''=''"
  using b64_alphabet_plain [OF b64_char_in] by simp

lemma index_of_nth:
  "distinct xs \<Longrightarrow> i < length xs \<Longrightarrow> index_of (xs ! i) xs = Some i"
proof (induction xs arbitrary: i)
  case Nil
  then show ?case by simp
next
  case (Cons x xs)
  show ?case
  proof (cases i)
    case 0
    then show ?thesis by simp
  next
    case (Suc j)
    with Cons.prems have "xs ! j \<noteq> x" by auto
    with Suc Cons show ?thesis by simp
  qed
qed

lemma b64_index_char: "b64_index (b64_char n) = Some (n mod 64)"
  by (simp add: b64_index_def b64_char_def index_of_nth distinct_b64_alphabet length_b64_alphabet)


lemma unpad_btoa_alphabet: "set (unpad (btoa b)) \<subseteq> set b64_alphabet"
  by (induction b rule: btoa.induct) (auto simp add: unpad_def b64_char_in)

lemma unpad_btoa_length: "length (unpad (btoa b)) mod 4 \<noteq> 1"
  by (induction b rule: btoa.induct) (simp_all add: unpad_def b64_char_not_pad)

lemma octet1':
  assumes "x < 256"
  shows "(x div 4) mod 64 * 4 + (((x mod 4) * 16) mod 64) div 16 = (x :: nat)"
  using octet1 [OF assms, of 0] by simp

lemma octet2':
  assumes "y < 256"
  shows "(((x mod 4) * 16 + y div 16) mod 64) mod 16 * 16
           + (((y mod 16) * 4) mod 64) div 4 = (y :: nat)"
  using octet2 [OF assms, of 0 x] by simp

lemma byte_of_nat: "n = unat a \<Longrightarrow> of_nat n = (a :: 8 word)"
  by simp

lemma sextets_octets_btoa:
  "\<exists>ns. sextets (unpad (btoa b)) = Some ns \<and> octets ns = b"
proof (induction b rule: btoa.induct)
  case 1
  show ?case by (simp add: unpad_def)
next
  case (2 a)
  have u: "unpad (btoa [a]) = [b64_char (unat a div 4), b64_char ((unat a mod 4) * 16)]"
    by (simp add: unpad_def b64_char_not_pad)
  have s: "sextets (unpad (btoa [a])) =
             Some [(unat a div 4) mod 64, ((unat a mod 4) * 16) mod 64]"
    by (simp only: u sextets.simps b64_index_char option.case)
  have o: "octets [(unat a div 4) mod 64, ((unat a mod 4) * 16) mod 64] = [a]"
    by (simp only: octets.simps byte_of_nat [OF octet1' [OF unat_byte]])
  from s o show ?case by blast
next
  case (3 a b)
  have u: "unpad (btoa [a, b]) =
      [b64_char (unat a div 4), b64_char ((unat a mod 4) * 16 + unat b div 16),
       b64_char ((unat b mod 16) * 4)]"
    by (simp add: unpad_def b64_char_not_pad)
  have s: "sextets (unpad (btoa [a, b])) =
             Some [(unat a div 4) mod 64, ((unat a mod 4) * 16 + unat b div 16) mod 64,
                   ((unat b mod 16) * 4) mod 64]"
    by (simp only: u sextets.simps b64_index_char option.case)
  have o: "octets [(unat a div 4) mod 64, ((unat a mod 4) * 16 + unat b div 16) mod 64,
                   ((unat b mod 16) * 4) mod 64] = [a, b]"
    by (simp only: octets.simps byte_of_nat [OF octet1 [OF unat_byte unat_byte]]
        byte_of_nat [OF octet2' [OF unat_byte]])
  from s o show ?case by blast
next
  case (4 a b c rest)
  then obtain ns where ns: "sextets (unpad (btoa rest)) = Some ns" "octets ns = rest"
    by blast
  have u: "unpad (btoa (a # b # c # rest)) =
      b64_char (unat a div 4) # b64_char ((unat a mod 4) * 16 + unat b div 16) #
      b64_char ((unat b mod 16) * 4 + unat c div 64) # b64_char (unat c mod 64) #
      unpad (btoa rest)"
    by (simp add: unpad_def b64_char_not_pad)
  have s: "sextets (unpad (btoa (a # b # c # rest))) =
             Some ((unat a div 4) mod 64 # ((unat a mod 4) * 16 + unat b div 16) mod 64 #
                   ((unat b mod 16) * 4 + unat c div 64) mod 64 # (unat c mod 64) mod 64 # ns)"
    by (simp only: u sextets.simps b64_index_char option.case ns)
  have o: "octets ((unat a div 4) mod 64 # ((unat a mod 4) * 16 + unat b div 16) mod 64 #
                   ((unat b mod 16) * 4 + unat c div 64) mod 64 # (unat c mod 64) mod 64 # ns)
             = a # b # c # rest"
    by (simp only: octets.simps byte_of_nat [OF octet1 [OF unat_byte unat_byte]]
        byte_of_nat [OF octet2 [OF unat_byte unat_byte]]
        byte_of_nat [OF octet3 [OF unat_byte]] ns append_Cons append_Nil)
  from s o show ?case by blast
qed

lemma filter_id_alphabet:
  "set s \<subseteq> set b64_alphabet \<Longrightarrow> filter (\<lambda>c. \<not> ascii_whitespace c) s = s"
  by (induction s) (auto simp add: b64_alphabet_plain)

lemma strip_padding_alphabet:
  "set s \<subseteq> set b64_alphabet \<Longrightarrow> strip_padding s = s"
proof (cases "s = []")
  case True
  then show ?thesis by (simp add: strip_padding_def)
next
  case False
  assume "set s \<subseteq> set b64_alphabet"
  with False have "last s \<in> set b64_alphabet" using last_in_set by blast
  then have "last s \<noteq> CHR ''=''" using b64_alphabet_plain by blast
  then show ?thesis by (simp add: strip_padding_def)
qed

lemma atob_unpad_btoa: "atob (unpad (btoa b)) = Inr b"
proof -
  obtain ns where ns: "sextets (unpad (btoa b)) = Some ns" "octets ns = b"
    using sextets_octets_btoa by blast
  show ?thesis
    using unpad_btoa_length [of b]
    by (simp add: atob_def Let_def filter_id_alphabet [OF unpad_btoa_alphabet]
        strip_padding_alphabet [OF unpad_btoa_alphabet] ns)
qed

lemma replace_char_absent: "x \<notin> set s \<Longrightarrow> replace_char x y s = s"
  by (induction s) (auto simp add: replace_char_def)

lemma replace_char_present: "x \<in> set s \<Longrightarrow> y \<in> set (replace_char x y s)"
  by (induction s) (auto simp add: replace_char_def)

lemma bufferEncode_plain:
  assumes "CHR ''-'' \<notin> set (bufferEncode b)" and "CHR ''_'' \<notin> set (bufferEncode b)"
  shows "bufferEncode b = unpad (btoa b)"
proof -
  let ?s1 = "replace_char CHR ''+'' CHR ''-'' (btoa b)"
  let ?s2 = "replace_char CHR ''/'' CHR ''_'' ?s1"
  have e: "bufferEncode b = unpad ?s2" by (simp add: bufferEncode_def)
  have "CHR ''/'' \<notin> set ?s1"
  proof
    assume "CHR ''/'' \<in> set ?s1"
    then have "CHR ''_'' \<in> set ?s2" by (rule replace_char_present)
    then have "CHR ''_'' \<in> set (bufferEncode b)" by (simp add: e unpad_def)
    with assms(2) show False by simp
  qed
  then have s2: "?s2 = ?s1" by (rule replace_char_absent)
  have "CHR ''+'' \<notin> set (btoa b)"
  proof
    assume "CHR ''+'' \<in> set (btoa b)"
    then have "CHR ''-'' \<in> set ?s1" by (rule replace_char_present)
    then have "CHR ''-'' \<in> set (bufferEncode b)" by (simp add: e s2 unpad_def)
    with assms(1) show False by simp
  qed
  then have s1: "?s1 = btoa b" by (rule replace_char_absent)
  from e have "bufferEncode b = unpad ?s1" by (simp only: s2)
  then show ?thesis by (simp only: s1)
qed

lemma decode_encode_plain:
  assumes "CHR ''-'' \<notin> set (bufferEncode b)" and "CHR ''_'' \<notin> set (bufferEncode b)"
  shows "bufferDecode (bufferEncode b) = Inr b"
  by (simp add: bufferDecode_def bufferEncode_plain [OF assms] atob_unpad_btoa)

text \<open>
  Claim C2 at the one-byte sequence 251: its encoding is \<^verbatim>\<open>-w\<close>, and decoding that
  throws, since \<^verbatim>\<open>atob\<close> does not take the character \<^verbatim>\<open>-\<close>.
\<close>

theorem decode_rejects_encoded_byte:
  "bufferEncode [251] = ''-w'' \<and> bufferDecode (bufferEncode [251]) = Inl InvalidCharacterError"
  by code_simp

end
